theory Spec2Isabelle
  imports Complex_Main "HOL-Library.AList"
begin

section \<open>JavaScript values\<close>

text \<open>
  The handlers of \<^verbatim>\<open>src/server.js\<close> and \<^verbatim>\<open>src/unnamed/part_000\<close> work on the
  parsed JSON body of a request. A value is what \<^verbatim>\<open>JSON.parse\<close> yields, plus
  \<^verbatim>\<open>undefined\<close>, which destructuring gives for an absent property. A number carries
  its numeric value; an object is the list of its own properties in insertion order. The
  names are distinct in every object that \<^verbatim>\<open>JSON.parse\<close> or an object literal builds,
  and a read takes the first binding of a name. The body of a request is such an object.
\<close>

datatype jsval =
    JUndefined
  | JNull
  | JBool bool
  | JNum rat
  | JStr string
  | JArr "jsval list"
  | JObj "(string \<times> jsval) list"

type_synonym obj = "(string \<times> jsval) list"

text \<open>JavaScript's \<^verbatim>\<open>ToBoolean\<close>: what \<^verbatim>\<open>!x\<close>, \<^verbatim>\<open>x || y\<close> and \<^verbatim>\<open>x ? a : b\<close> test.\<close>

fun truthy :: "jsval \<Rightarrow> bool" where
  "truthy JUndefined = False"
| "truthy JNull = False"
| "truthy (JBool b) = b"
| "truthy (JNum n) = (n \<noteq> 0)"
| "truthy (JStr s) = (s \<noteq> [])"
| "truthy (JArr xs) = True"
| "truthy (JObj kvs) = True"

text \<open>\<^verbatim>\<open>a || b\<close>\<close>

definition js_or :: "jsval \<Rightarrow> jsval \<Rightarrow> jsval" where
  "js_or a b = (if truthy a then a else b)"

text \<open>Property read \<^verbatim>\<open>o.k\<close> on an object: \<^verbatim>\<open>undefined\<close> when the property is absent.\<close>

definition field :: "obj \<Rightarrow> string \<Rightarrow> jsval" where
  "field kvs k = (case map_of kvs k of None \<Rightarrow> JUndefined | Some v \<Rightarrow> v)"

text \<open>A destructuring default \<^verbatim>\<open>{ k = d }\<close> applies to \<^verbatim>\<open>undefined\<close> only.\<close>

definition dflt :: "jsval \<Rightarrow> jsval \<Rightarrow> jsval" where
  "dflt v d = (if v = JUndefined then d else v)"

text \<open>Decimal digits of an index, the property names of an array or a string.\<close>

fun string_of_nat :: "nat \<Rightarrow> string" where
  "string_of_nat n =
     (if n < 10 then [char_of (48 + n)]
      else string_of_nat (n div 10) @ [char_of (48 + n mod 10)])"

text \<open>
  The own enumerable properties that an object spread \<^verbatim>\<open>{...v}\<close> copies: those of an
  object, the indices of an array or of a string, nothing for the other values.
\<close>

fun own_props :: "jsval \<Rightarrow> obj" where
  "own_props (JObj kvs) = kvs"
| "own_props (JArr xs) = zip (map string_of_nat [0..<length xs]) xs"
| "own_props (JStr s) = zip (map string_of_nat [0..<length s]) (map (\<lambda>c. JStr [c]) s)"
| "own_props v = []"

text \<open>\<^verbatim>\<open>{...target, ...v}\<close>: each copied property is set on the object built so far.\<close>

definition spread :: "obj \<Rightarrow> jsval \<Rightarrow> obj" where
  "spread target v = fold (\<lambda>(k, x) acc. AList.update k x acc) (own_props v) target"

section \<open>The external processor, the clock and the trace of a handler\<close>

text \<open>
  An error caught by a handler, which reads its \<^verbatim>\<open>message\<close>: one thrown by a call of the
  Stripe client, or the \<^verbatim>\<open>TypeError\<close> of destructuring \<^verbatim>\<open>undefined\<close> or \<^verbatim>\<open>null\<close>.
\<close>

datatype stripe_error = StripeError (message: string) | TypeError (message: string)

text \<open>
  What a handler does, in order: calls of the Stripe client, timers, console output and
  the HTTP response (status and JSON body). The pictograph that starts each console
  message of the source is left out of the text.
\<close>

datatype event =
    Call_create jsval
  | Call_processPaymentIntent jsval jsval
  | Call_retrieve jsval
  | Call_collectInputs jsval jsval
  | Call_cancelAction jsval
  | SetTimeout nat
  | ConsoleLog string "jsval list"
  | ConsoleError string "jsval list"
  | Respond nat jsval

text \<open>
  The environment of a handler: the configured reader, the answers of the processor
  (that of the k-th status fetch is \<open>retrieve w k\<close>), and the time in milliseconds that
  the call made as the i-th event of a trace takes (\<open>latency\<close>) or by which the timer set
  as the i-th event fires late (\<open>lateness\<close>).
\<close>

record world =
  READER_ID :: jsval
  create :: "jsval \<Rightarrow> stripe_error + obj"
  processPaymentIntent :: "jsval \<Rightarrow> jsval \<Rightarrow> stripe_error + obj"
  retrieve :: "nat \<Rightarrow> jsval \<Rightarrow> stripe_error + obj"
  collectInputs :: "jsval \<Rightarrow> jsval \<Rightarrow> stripe_error + obj"
  cancelAction :: "jsval \<Rightarrow> stripe_error + obj"
  latency :: "nat \<Rightarrow> nat"
  lateness :: "nat \<Rightarrow> nat"

text \<open>The state of a running handler: the clock and the events so far, each with its time.\<close>

record state =
  now :: nat
  trace :: "(nat \<times> event) list"

definition start :: "nat \<Rightarrow> state" where
  "start t0 = \<lparr>now = t0, trace = []\<rparr>"

definition emit :: "event \<Rightarrow> state \<Rightarrow> state" where
  "emit ev s = s\<lparr>trace := trace s @ [(now s, ev)]\<rparr>"

text \<open>\<^verbatim>\<open>await stripe...(...)\<close>: the call is issued now and the handler resumes when it settles.\<close>

definition await_call :: "world \<Rightarrow> event \<Rightarrow> state \<Rightarrow> state" where
  "await_call w ev s = (emit ev s)\<lparr>now := now s + latency w (length (trace s))\<rparr>"

text \<open>
  \<^verbatim>\<open>await new Promise((r) => setTimeout(r, d))\<close>: the handler resumes no earlier than
  \<open>d\<close> milliseconds after the timer is set.
\<close>

definition sleep :: "world \<Rightarrow> nat \<Rightarrow> state \<Rightarrow> state" where
  "sleep w d s = (emit (SetTimeout d) s)\<lparr>now := now s + d + lateness w (length (trace s))\<rparr>"

text \<open>\<^verbatim>\<open>res.status(c).json(b)\<close>; \<^verbatim>\<open>res.json(b)\<close> is status 200.\<close>

definition respond :: "nat \<Rightarrow> jsval \<Rightarrow> state \<Rightarrow> state" where
  "respond c b s = emit (Respond c b) s"

text \<open>The \<^verbatim>\<open>catch (err)\<close> of a handler: log the message, answer 500 with it.\<close>

definition catch_err :: "string \<Rightarrow> stripe_error \<Rightarrow> state \<Rightarrow> state" where
  "catch_err label err s =
     respond 500 (JObj [(''error'', JStr (message err))])
       (emit (ConsoleError label [JStr (message err)]) s)"

section \<open>Create Payment Intent\<close>

text \<open>The argument of \<^verbatim>\<open>stripe.paymentIntents.create\<close> in \<^verbatim>\<open>src/server.js\<close>.\<close>

definition create_params_server :: "obj \<Rightarrow> jsval" where
  "create_params_server body =
     (let amount = field body ''amount'';
          currency = dflt (field body ''currency'') (JStr ''usd'');
          email = field body ''email'';
          metadata = dflt (field body ''metadata'') (JObj [])
      in JObj [(''amount'', amount),
               (''currency'', currency),
               (''payment_method_types'', JArr [JStr ''card_present'']),
               (''capture_method'', JStr ''automatic''),
               (''metadata'', metadata),
               (''description'', JStr ''Authenticus POS Sale''),
               (''receipt_email'', js_or email JUndefined)])"

text \<open>
  The handler of \<^verbatim>\<open>POST /create-payment-intent\<close> in \<^verbatim>\<open>src/server.js\<close>, from the point
  where \<^verbatim>\<open>req.body\<close> has been destructured: \<open>body\<close> holds the properties read from it.
  The destructuring itself, which throws when \<^verbatim>\<open>req.body\<close> is \<^verbatim>\<open>undefined\<close>, is in
  \<open>post_create_payment_intent_server\<close> below.
\<close>

definition create_payment_intent_server :: "world \<Rightarrow> obj \<Rightarrow> nat \<Rightarrow> state" where
  "create_payment_intent_server w body t0 =
     (let amount = field body ''amount'' in
      if \<not> truthy amount then respond 400 (JObj [(''error'', JStr ''Missing amount'')]) (start t0)
      else
        let params = create_params_server body;
            s1 = await_call w (Call_create params) (start t0)
        in case create w params of
             Inl err \<Rightarrow> catch_err ''Stripe error creating payment intent:'' err s1
           | Inr paymentIntent \<Rightarrow>
               respond 200 (JObj [(''payment_intent'', field paymentIntent ''id'')])
                 (emit (ConsoleLog ''Created PaymentIntent: '' [field paymentIntent ''id'']) s1))"

text \<open>
  \<^verbatim>\<open>src/unnamed/part_000\<close> also reads \<^verbatim>\<open>receipt_email\<close>, normalises the optional
  email (\<^verbatim>\<open>email || receipt_email || null\<close>) and stores it in the metadata. Its handler
  is again given from the point where \<^verbatim>\<open>req.body\<close> has been destructured.
\<close>

definition customerEmail :: "obj \<Rightarrow> jsval" where
  "customerEmail body = js_or (js_or (field body ''email'') (field body ''receipt_email'')) JNull"

definition create_params_part_000 :: "obj \<Rightarrow> jsval" where
  "create_params_part_000 body =
     (let amount = field body ''amount'';
          currency = dflt (field body ''currency'') (JStr ''usd'');
          metadata = dflt (field body ''metadata'') (JObj [])
      in JObj [(''amount'', amount),
               (''currency'', currency),
               (''payment_method_types'', JArr [JStr ''card_present'']),
               (''capture_method'', JStr ''automatic''),
               (''description'', JStr ''Authenticus POS Sale''),
               (''metadata'',
                  JObj (spread (spread [] metadata)
                    (if truthy (customerEmail body)
                     then JObj [(''customer_email'', customerEmail body)] else JObj []))),
               (''receipt_email'', js_or (customerEmail body) JUndefined)])"

definition create_payment_intent_part_000 :: "world \<Rightarrow> obj \<Rightarrow> nat \<Rightarrow> state" where
  "create_payment_intent_part_000 w body t0 =
     (let amount = field body ''amount'' in
      if \<not> truthy amount then respond 400 (JObj [(''error'', JStr ''Missing amount'')]) (start t0)
      else
        let params = create_params_part_000 body;
            s1 = await_call w (Call_create params) (start t0)
        in case create w params of
             Inl err \<Rightarrow> catch_err ''Stripe error creating payment intent:'' err s1
           | Inr paymentIntent \<Rightarrow>
               respond 200 (JObj [(''payment_intent'', field paymentIntent ''id'')])
                 (emit (ConsoleLog ''Created PaymentIntent: '' [field paymentIntent ''id'']) s1))"

text \<open>
  \<^verbatim>\<open>const { amount, ... } = req.body\<close>, the first statement inside the \<^verbatim>\<open>try\<close> of each
  handler. \<^verbatim>\<open>req.body\<close> is what the body parser left there: the parsed JSON value, or
  \<^verbatim>\<open>undefined\<close> when a parser that does not default it parsed no body. Destructuring
  \<^verbatim>\<open>undefined\<close> or \<^verbatim>\<open>null\<close> throws a \<^verbatim>\<open>TypeError\<close> (the message is the one of V8,
  \<open>first\<close> being the first property of the pattern); any other value is read
  property by property.
\<close>

definition cannot_destructure :: "string \<Rightarrow> string \<Rightarrow> string" where
  "cannot_destructure first what =
     ''Cannot destructure property '' @ [CHR 0x27] @ first @ [CHR 0x27] @ '' of '' @
     [CHR 0x27] @ ''req.body'' @ [CHR 0x27] @ '' as it is '' @ what @ ''.''"

fun destructure :: "string \<Rightarrow> jsval \<Rightarrow> stripe_error + obj" where
  "destructure first JUndefined = Inl (TypeError (cannot_destructure first ''undefined''))"
| "destructure first JNull = Inl (TypeError (cannot_destructure first ''null''))"
| "destructure first v = Inr (own_props v)"

text \<open>
  The whole handler of \<^verbatim>\<open>POST /create-payment-intent\<close>, on \<^verbatim>\<open>req.body\<close>: the
  \<^verbatim>\<open>TypeError\<close> of the destructuring is caught by the handler's own \<^verbatim>\<open>catch\<close>.
\<close>

definition post_create_payment_intent_server :: "world \<Rightarrow> jsval \<Rightarrow> nat \<Rightarrow> state" where
  "post_create_payment_intent_server w req_body t0 =
     (case destructure ''amount'' req_body of
        Inl err \<Rightarrow> catch_err ''Stripe error creating payment intent:'' err (start t0)
      | Inr body \<Rightarrow> create_payment_intent_server w body t0)"

definition post_create_payment_intent_part_000 :: "world \<Rightarrow> jsval \<Rightarrow> nat \<Rightarrow> state" where
  "post_create_payment_intent_part_000 w req_body t0 =
     (case destructure ''amount'' req_body of
        Inl err \<Rightarrow> catch_err ''Stripe error creating payment intent:'' err (start t0)
      | Inr body \<Rightarrow> create_payment_intent_part_000 w body t0)"

section \<open>Process Payment on Reader\<close>

text \<open>
  The handler of \<^verbatim>\<open>POST /process-on-reader\<close> is the same in both files; it is given
  from the point where \<^verbatim>\<open>req.body\<close> has been destructured, and as a whole in
  \<open>post_process_on_reader\<close> below. Its inner
  function \<^verbatim>\<open>poll\<close> fetches the payment intent, returns it when its status is
  \<^verbatim>\<open>'succeeded'\<close>, and otherwise waits 1500 ms and calls itself; a rejected fetch
  rejects \<^verbatim>\<open>poll\<close>. Nothing bounds the recursion, so \<open>poll\<close> is a partial function:
  \<open>None\<close> is a loop that never returns. \<open>k\<close> counts the fetches made so far.
\<close>

partial_function (option) poll ::
  "world \<Rightarrow> jsval \<Rightarrow> nat \<Rightarrow> state \<Rightarrow> ((stripe_error + obj) \<times> state) option" where
  "poll w payment_intent k s =
     (let s1 = await_call w (Call_retrieve payment_intent) s in
      case retrieve w k payment_intent of
        Inl err \<Rightarrow> Some (Inl err, s1)
      | Inr pint \<Rightarrow>
          if field pint ''status'' = JStr ''succeeded'' then Some (Inr pint, s1)
          else poll w payment_intent (Suc k) (sleep w 1500 s1))"

declare poll.simps [code]

text \<open>The argument of \<^verbatim>\<open>stripe.terminal.readers.collectInputs\<close>.\<close>

definition collect_params :: jsval where
  "collect_params =
     JObj [(''type'', JStr ''customer_contact''),
           (''fields'',
              JArr [JObj [(''name'', JStr ''email''),
                          (''label'', JStr ''Email for receipt (optional)'')],
                    JObj [(''name'', JStr ''phone_number''),
                          (''label'', JStr ''SMS for receipt (optional)'')]])]"

text \<open>
  What follows \<^verbatim>\<open>res.json\<close> in the handler: the inner \<^verbatim>\<open>try\<close> that prompts the
  customer on the reader, with its own \<^verbatim>\<open>catch\<close>.
\<close>

definition prompt_customer :: "world \<Rightarrow> obj \<Rightarrow> state \<Rightarrow> state" where
  "prompt_customer w result s =
     (if field result ''status'' = JStr ''succeeded'' then
        let s1 = sleep w 1000 s;
            s2 = await_call w (Call_collectInputs (READER_ID w) collect_params) s1
        in case collectInputs w (READER_ID w) collect_params of
             Inl collectErr \<Rightarrow>
               emit (ConsoleError ''Error collecting on-reader inputs:''
                       [JStr (message collectErr)]) s2
           | Inr inputResult \<Rightarrow>
               emit (ConsoleLog ''Customer input collected on reader:'' [JObj inputResult]) s2
      else s)"

definition process_on_reader :: "world \<Rightarrow> obj \<Rightarrow> nat \<Rightarrow> state option" where
  "process_on_reader w body t0 =
     (let payment_intent = field body ''payment_intent'' in
      if \<not> truthy payment_intent
      then Some (respond 400 (JObj [(''error'', JStr ''Missing payment_intent'')]) (start t0))
      else
        let arg = JObj [(''payment_intent'', payment_intent)];
            s1 = await_call w (Call_processPaymentIntent (READER_ID w) arg) (start t0)
        in case processPaymentIntent w (READER_ID w) arg of
             Inl err \<Rightarrow> Some (catch_err ''Error processing payment on reader:'' err s1)
           | Inr _ \<Rightarrow>
               (case poll w payment_intent 0 s1 of
                  None \<Rightarrow> None
                | Some (Inl err, s2) \<Rightarrow>
                    Some (catch_err ''Error processing payment on reader:'' err s2)
                | Some (Inr result, s2) \<Rightarrow>
                    Some (prompt_customer w result
                            (respond 200 (JObj [(''success'', JBool True),
                                                (''payment_intent'', JObj result)]) s2))))"

text \<open>The whole handler, on \<^verbatim>\<open>req.body\<close>.\<close>

definition post_process_on_reader :: "world \<Rightarrow> jsval \<Rightarrow> nat \<Rightarrow> state option" where
  "post_process_on_reader w req_body t0 =
     (case destructure ''payment_intent'' req_body of
        Inl err \<Rightarrow> Some (catch_err ''Error processing payment on reader:'' err (start t0))
      | Inr body \<Rightarrow> process_on_reader w body t0)"

text \<open>
  The handler observed for at most \<open>n\<close> fetches. \<open>poll_upto\<close> is \<^verbatim>\<open>poll\<close> with the
  recursion cut after \<open>n\<close> rounds and \<open>process_on_reader_upto\<close> is the handler around
  it: \<open>Returned\<close> is a run that has returned, as \<open>Some\<close> is above, and \<open>Running s\<close> is
  a run that is still in the loop, \<open>s\<close> being the clock and everything done so far.
\<close>

datatype 'a observed = Returned 'a | Running state

fun poll_upto ::
  "nat \<Rightarrow> world \<Rightarrow> jsval \<Rightarrow> nat \<Rightarrow> state \<Rightarrow> ((stripe_error + obj) \<times> state) observed" where
  "poll_upto 0 w payment_intent k s = Running s"
| "poll_upto (Suc n) w payment_intent k s =
     (let s1 = await_call w (Call_retrieve payment_intent) s in
      case retrieve w k payment_intent of
        Inl err \<Rightarrow> Returned (Inl err, s1)
      | Inr pint \<Rightarrow>
          if field pint ''status'' = JStr ''succeeded'' then Returned (Inr pint, s1)
          else poll_upto n w payment_intent (Suc k) (sleep w 1500 s1))"

definition process_on_reader_upto :: "nat \<Rightarrow> world \<Rightarrow> obj \<Rightarrow> nat \<Rightarrow> state observed" where
  "process_on_reader_upto n w body t0 =
     (let payment_intent = field body ''payment_intent'' in
      if \<not> truthy payment_intent
      then Returned (respond 400 (JObj [(''error'', JStr ''Missing payment_intent'')]) (start t0))
      else
        let arg = JObj [(''payment_intent'', payment_intent)];
            s1 = await_call w (Call_processPaymentIntent (READER_ID w) arg) (start t0)
        in case processPaymentIntent w (READER_ID w) arg of
             Inl err \<Rightarrow> Returned (catch_err ''Error processing payment on reader:'' err s1)
           | Inr _ \<Rightarrow>
               (case poll_upto n w payment_intent 0 s1 of
                  Running s \<Rightarrow> Running s
                | Returned (Inl err, s2) \<Rightarrow>
                    Returned (catch_err ''Error processing payment on reader:'' err s2)
                | Returned (Inr result, s2) \<Rightarrow>
                    Returned (prompt_customer w result
                                (respond 200 (JObj [(''success'', JBool True),
                                                    (''payment_intent'', JObj result)]) s2))))"

text \<open>
  The state in which the handler first calls \<^verbatim>\<open>poll\<close>: the reader has been instructed
  and the call has settled.
\<close>

definition instructed :: "world \<Rightarrow> obj \<Rightarrow> nat \<Rightarrow> state" where
  "instructed w body t0 =
     await_call w (Call_processPaymentIntent (READER_ID w)
                     (JObj [(''payment_intent'', field body ''payment_intent'')])) (start t0)"

text \<open>
  The state of the loop after \<open>n\<close> rounds in which the fetch did not find
  \<^verbatim>\<open>'succeeded'\<close>: each round is one fetch followed by the 1500 ms timer.
\<close>

fun retries :: "world \<Rightarrow> jsval \<Rightarrow> nat \<Rightarrow> state \<Rightarrow> state" where
  "retries w payment_intent 0 s = s"
| "retries w payment_intent (Suc n) s =
     sleep w 1500 (await_call w (Call_retrieve payment_intent) (retries w payment_intent n s))"

section \<open>Cancel Payment on Reader\<close>

text \<open>The handler of \<^verbatim>\<open>POST /cancel-payment\<close>, in \<^verbatim>\<open>src/unnamed/part_000\<close> only.\<close>

definition cancel_payment :: "world \<Rightarrow> nat \<Rightarrow> state" where
  "cancel_payment w t0 =
     (let s1 = await_call w (Call_cancelAction (READER_ID w)) (start t0) in
      case cancelAction w (READER_ID w) of
        Inl err \<Rightarrow> catch_err ''Error cancelling reader action:'' err s1
      | Inr _ \<Rightarrow>
          respond 200 (JObj [(''success'', JBool True),
                             (''message'', JStr ''Payment cancelled on reader'')])
            (emit (ConsoleLog ''Payment cancelled on reader.'' []) s1))"

section \<open>Reading a trace\<close>

fun is_response :: "event \<Rightarrow> bool" where
  "is_response (Respond c b) = True"
| "is_response ev = False"

fun is_fetch :: "event \<Rightarrow> bool" where
  "is_fetch (Call_retrieve p) = True"
| "is_fetch ev = False"

fun is_call :: "event \<Rightarrow> bool" where
  "is_call (Call_create p) = True"
| "is_call (Call_processPaymentIntent r p) = True"
| "is_call (Call_retrieve p) = True"
| "is_call (Call_collectInputs r p) = True"
| "is_call (Call_cancelAction r) = True"
| "is_call ev = False"

text \<open>The responses sent, the calls made to the processor, and the times of the fetches.\<close>

definition responses :: "state \<Rightarrow> event list" where
  "responses s = filter is_response (map snd (trace s))"

definition calls :: "state \<Rightarrow> event list" where
  "calls s = filter is_call (map snd (trace s))"

definition fetch_times :: "state \<Rightarrow> nat list" where
  "fetch_times s = map fst (filter (\<lambda>e. is_fetch (snd e)) (trace s))"

text \<open>The fetches made before the first response is sent.\<close>

definition fetches_before_response :: "state \<Rightarrow> event list" where
  "fetches_before_response s =
     filter is_fetch (takeWhile (\<lambda>e. \<not> is_response e) (map snd (trace s)))"

text \<open>Two fields of the argument of a creation call: its metadata and its receipt address.\<close>

definition metadata_of :: "jsval \<Rightarrow> obj" where
  "metadata_of params = own_props (field (own_props params) ''metadata'')"

definition receipt_email_of :: "jsval \<Rightarrow> jsval" where
  "receipt_email_of params = field (own_props params) ''receipt_email''"

section \<open>Example environments and requests\<close>

text \<open>
  A processor that creates the intent \<^verbatim>\<open>pi_1\<close>, accepts the instruction to the
  reader, reports \<^verbatim>\<open>processing\<close> on the first two fetches and \<^verbatim>\<open>succeeded\<close> from
  the third, and rejects the prompt on the reader. Calls take 20 ms, timers fire 1 ms late.
\<close>

definition example_world :: world where
  "example_world =
     \<lparr>READER_ID = JStr ''tmr_1'',
      create = (\<lambda>params. Inr [(''id'', JStr ''pi_1''),
                               (''status'', JStr ''requires_payment_method'')]),
      processPaymentIntent = (\<lambda>reader arg. Inr [(''id'', reader)]),
      retrieve = (\<lambda>k p. Inr [(''id'', p),
                              (''status'', JStr (if k < 2 then ''processing'' else ''succeeded''))]),
      collectInputs = (\<lambda>reader arg. Inl (StripeError ''Reader is busy'')),
      cancelAction = (\<lambda>reader. Inr [(''id'', reader)]),
      latency = (\<lambda>i. 20),
      lateness = (\<lambda>i. 1)\<rparr>"

text \<open>The payment was cancelled: every fetch reports \<^verbatim>\<open>canceled\<close>.\<close>

definition canceled_world :: world where
  "canceled_world =
     example_world\<lparr>retrieve := (\<lambda>k p. Inr [(''id'', p), (''status'', JStr ''canceled'')])\<rparr>"

text \<open>The payment has succeeded by the first fetch.\<close>

definition prompt_world :: world where
  "prompt_world =
     example_world\<lparr>retrieve := (\<lambda>k p. Inr [(''id'', p), (''status'', JStr ''succeeded'')])\<rparr>"

text \<open>The processor rejects the creation, the instruction to the reader and the cancellation.\<close>

definition failing_world :: world where
  "failing_world =
     example_world\<lparr>create := (\<lambda>params. Inl (StripeError ''Invalid API Key provided'')),
                   processPaymentIntent := (\<lambda>reader arg. Inl (StripeError ''Reader is offline'')),
                   cancelAction := (\<lambda>reader. Inl (StripeError ''Reader is offline''))\<rparr>"

definition example_request :: obj where
  "example_request = [(''payment_intent'', JStr ''pi_1'')]"

definition sale_request :: obj where
  "sale_request = [(''amount'', JNum 1999), (''email'', JStr ''a@b.c'')]"

definition both_emails_request :: obj where
  "both_emails_request =
     [(''amount'', JNum 1999), (''email'', JStr ''a@b.c''), (''receipt_email'', JStr ''r@x.y''),
      (''metadata'', JObj [(''order'', JStr ''42''), (''customer_email'', JStr ''old@x.y'')])]"

section \<open>Facts about states and traces\<close>

lemma trace_emit: "trace (emit ev s) = trace s @ [(now s, ev)]"
  by (simp add: emit_def)

lemma now_emit: "now (emit ev s) = now s"
  by (simp add: emit_def)

lemma trace_await_call: "trace (await_call w ev s) = trace s @ [(now s, ev)]"
  by (simp add: await_call_def emit_def)

lemma now_await_call: "now (await_call w ev s) = now s + latency w (length (trace s))"
  by (simp add: await_call_def)

lemma trace_sleep: "trace (sleep w d s) = trace s @ [(now s, SetTimeout d)]"
  by (simp add: sleep_def emit_def)

lemma now_sleep: "now (sleep w d s) = now s + d + lateness w (length (trace s))"
  by (simp add: sleep_def)

lemma trace_respond: "trace (respond c b s) = trace s @ [(now s, Respond c b)]"
  by (simp add: respond_def emit_def)

lemma now_respond: "now (respond c b s) = now s"
  by (simp add: respond_def emit_def)

lemma trace_start: "trace (start t0) = []"
  by (simp add: start_def)

lemma now_start: "now (start t0) = t0"
  by (simp add: start_def)

lemma trace_catch_err:
  "trace (catch_err label err s) =
     trace s @ [(now s, ConsoleError label [JStr (message err)]),
                (now s, Respond 500 (JObj [(''error'', JStr (message err))]))]"
  by (simp add: catch_err_def trace_respond trace_emit now_emit)

lemmas trace_simps = trace_emit now_emit trace_await_call now_await_call trace_sleep now_sleep
  trace_respond now_respond trace_start now_start trace_catch_err

lemma field_Nil: "field [] k = JUndefined"
  by (simp add: field_def)

lemma field_missing: "map_of body k = None \<Longrightarrow> field body k = JUndefined"
  by (simp add: field_def)

lemma create_server_400:
  "\<not> truthy (field body ''amount'') \<Longrightarrow>
   trace (create_payment_intent_server w body t0) =
     [(t0, Respond 400 (JObj [(''error'', JStr ''Missing amount'')]))]"
  by (simp add: create_payment_intent_server_def trace_simps)

lemma create_part_000_400:
  "\<not> truthy (field body ''amount'') \<Longrightarrow>
   trace (create_payment_intent_part_000 w body t0) =
     [(t0, Respond 400 (JObj [(''error'', JStr ''Missing amount'')]))]"
  by (simp add: create_payment_intent_part_000_def trace_simps)

lemma process_400:
  "\<not> truthy (field body ''payment_intent'') \<Longrightarrow>
   process_on_reader w body t0 =
     Some \<lparr>now = t0, trace = [(t0, Respond 400 (JObj [(''error'', JStr ''Missing payment_intent'')]))]\<rparr>"
  by (simp add: process_on_reader_def respond_def emit_def start_def)

lemma calls_create_server:
  "truthy (field body ''amount'') \<Longrightarrow>
   calls (create_payment_intent_server w body t0) = [Call_create (create_params_server body)]"
  by (simp add: create_payment_intent_server_def calls_def trace_simps Let_def split: sum.split)

lemma calls_create_part_000:
  "truthy (field body ''amount'') \<Longrightarrow>
   calls (create_payment_intent_part_000 w body t0) = [Call_create (create_params_part_000 body)]"
  by (simp add: create_payment_intent_part_000_def calls_def trace_simps Let_def split: sum.split)

lemma responses_create_server:
  "truthy (field body ''amount'') \<Longrightarrow> create w (create_params_server body) = Inr paymentIntent \<Longrightarrow>
   responses (create_payment_intent_server w body t0) =
     [Respond 200 (JObj [(''payment_intent'', field paymentIntent ''id'')])]"
  by (simp add: create_payment_intent_server_def responses_def trace_simps Let_def)

lemma responses_create_part_000:
  "truthy (field body ''amount'') \<Longrightarrow> create w (create_params_part_000 body) = Inr paymentIntent \<Longrightarrow>
   responses (create_payment_intent_part_000 w body t0) =
     [Respond 200 (JObj [(''payment_intent'', field paymentIntent ''id'')])]"
  by (simp add: create_payment_intent_part_000_def responses_def trace_simps Let_def)

lemma amount_server: "field (own_props (create_params_server body)) ''amount'' = field body ''amount''"
  by (simp add: create_params_server_def Let_def field_def)

lemma amount_part_000: "field (own_props (create_params_part_000 body)) ''amount'' = field body ''amount''"
  by (simp add: create_params_part_000_def Let_def field_def)

lemma metadata_server:
  "field (own_props (create_params_server body)) ''metadata'' = dflt (field body ''metadata'') (JObj [])"
  by (simp add: create_params_server_def Let_def field_def)

lemma receipt_server:
  "receipt_email_of (create_params_server body) = js_or (field body ''email'') JUndefined"
  by (simp add: create_params_server_def receipt_email_of_def Let_def field_def)

lemma receipt_part_000:
  "receipt_email_of (create_params_part_000 body) = js_or (customerEmail body) JUndefined"
  by (simp add: create_params_part_000_def receipt_email_of_def Let_def field_def)

lemma field_spread_single: "field (spread target (JObj [(k, v)])) k = v"
  by (simp add: spread_def field_def update_conv')

lemma tagged_part_000:
  "truthy (customerEmail body) \<Longrightarrow>
   field (metadata_of (create_params_part_000 body)) ''customer_email'' = customerEmail body"
  by (simp add: create_params_part_000_def metadata_of_def Let_def field_def[of "_ # _"] field_spread_single)

lemma customerEmail_cases:
  "customerEmail body =
     (if truthy (field body ''email'') then field body ''email''
      else if truthy (field body ''receipt_email'') then field body ''receipt_email'' else JNull)"
  by (simp add: customerEmail_def js_or_def)

section \<open>Facts about the polling loop\<close>

lemma poll_retry:
  "retrieve w k p = Inr pint \<Longrightarrow> field pint ''status'' \<noteq> JStr ''succeeded'' \<Longrightarrow>
   poll w p k s = poll w p (Suc k) (sleep w 1500 (await_call w (Call_retrieve p) s))"
  by (subst poll.simps) simp

lemma poll_succeeded:
  "retrieve w k p = Inr pint \<Longrightarrow> field pint ''status'' = JStr ''succeeded'' \<Longrightarrow>
   poll w p k s = Some (Inr pint, await_call w (Call_retrieve p) s)"
  by (subst poll.simps) simp

lemma poll_retries:
  "\<forall>j<n. \<exists>pint. retrieve w (k + j) p = Inr pint \<and> field pint ''status'' \<noteq> JStr ''succeeded'' \<Longrightarrow>
   poll w p k s = poll w p (k + n) (retries w p n s)"
proof (induction n)
  case 0
  show ?case by simp
next
  case (Suc n)
  from Suc.prems obtain pint where
    r: "retrieve w (k + n) p = Inr pint" "field pint ''status'' \<noteq> JStr ''succeeded''"
    by blast
  from Suc.prems have "poll w p k s = poll w p (k + n) (retries w p n s)"
    by (intro Suc.IH) simp
  also have "\<dots> = poll w p (Suc (k + n)) (retries w p (Suc n) s)"
    using poll_retry [OF r] by simp
  finally show ?case by simp
qed

lemma poll_never_Some:
  assumes never: "\<forall>j. \<exists>pint. retrieve w j p = Inr pint \<and> field pint ''status'' \<noteq> JStr ''succeeded''"
  shows "poll w p k s = None"
proof -
  have aux: "w' = w \<longrightarrow> p' = p \<longrightarrow> False" if h: "poll w' p' k s = Some res" for w' p' k s res
  proof (rule poll.raw_induct [where P = "\<lambda>w' p' k s res. w' = w \<longrightarrow> p' = p \<longrightarrow> False", OF _ h])
    fix poll' w' p' k s res
    assume IH: "\<And>w' p' k s res. poll' w' p' k s = Some res \<Longrightarrow> w' = w \<longrightarrow> p' = p \<longrightarrow> False"
      and body: "(let s1 = await_call w' (Call_retrieve p') s
                  in case retrieve w' k p' of
                       Inl err \<Rightarrow> Some (Inl err, s1)
                     | Inr pint \<Rightarrow>
                         if field pint ''status'' = JStr ''succeeded'' then Some (Inr pint, s1)
                         else poll' w' p' (Suc k) (sleep w' 1500 s1)) = Some res"
    show "w' = w \<longrightarrow> p' = p \<longrightarrow> False"
    proof (intro impI)
      assume eq: "w' = w" "p' = p"
      from never obtain pint where
        r: "retrieve w k p = Inr pint" "field pint ''status'' \<noteq> JStr ''succeeded''"
        by blast
      from body eq r
      have "poll' w p (Suc k) (sleep w 1500 (await_call w (Call_retrieve p) s)) = Some res"
        by simp
      from IH [OF this] show False by simp
    qed
  qed
  show ?thesis
  proof (cases "poll w p k s")
    case None
    then show ?thesis .
  next
    case (Some res)
    from aux [OF this] show ?thesis by simp
  qed
qed

lemma poll_Some_succeeded:
  assumes h: "poll w p k s = Some (Inr result, s')"
  shows "field result ''status'' = JStr ''succeeded'' \<and> responses s' = responses s"
proof -
  have aux: "\<forall>result s'. res = (Inr result, s') \<longrightarrow>
               field result ''status'' = JStr ''succeeded'' \<and> responses s' = responses s"
    if h: "poll w p k s = Some res" for w p k s res
  proof (rule poll.raw_induct [where P = "\<lambda>w p k s res.
              \<forall>result s'. res = (Inr result, s') \<longrightarrow>
                field result ''status'' = JStr ''succeeded'' \<and> responses s' = responses s", OF _ h])
    fix poll' w p k s res
    assume IH: "\<And>w p k s res. poll' w p k s = Some res \<Longrightarrow>
                  \<forall>result s'. res = (Inr result, s') \<longrightarrow>
                    field result ''status'' = JStr ''succeeded'' \<and> responses s' = responses s"
      and body: "(let s1 = await_call w (Call_retrieve p) s
                  in case retrieve w k p of
                       Inl err \<Rightarrow> Some (Inl err, s1)
                     | Inr pint \<Rightarrow>
                         if field pint ''status'' = JStr ''succeeded'' then Some (Inr pint, s1)
                         else poll' w p (Suc k) (sleep w 1500 s1)) = Some res"
    show "\<forall>result s'. res = (Inr result, s') \<longrightarrow>
            field result ''status'' = JStr ''succeeded'' \<and> responses s' = responses s"
    proof (cases "retrieve w k p")
      case (Inl err)
      with body show ?thesis by auto
    next
      case (Inr pint)
      show ?thesis
      proof (cases "field pint ''status'' = JStr ''succeeded''")
        case True
        with Inr body show ?thesis
          by (auto simp: responses_def trace_simps)
      next
        case False
        with Inr body
        have "poll' w p (Suc k) (sleep w 1500 (await_call w (Call_retrieve p) s)) = Some res"
          by simp
        from IH [OF this] show ?thesis
          by (simp add: responses_def trace_simps)
      qed
    qed
  qed
  from aux [OF h] show ?thesis by simp
qed

lemma responses_retries: "responses (retries w p n s) = responses s"
  by (induction n) (simp_all add: responses_def trace_simps)

lemma fetch_times_retrieve:
  "fetch_times (await_call w (Call_retrieve p) s) = fetch_times s @ [now s]"
  by (simp add: fetch_times_def trace_simps)

lemma fetch_times_retries_Suc:
  "fetch_times (retries w p (Suc n) s) = fetch_times (retries w p n s) @ [now (retries w p n s)]"
  by (simp add: fetch_times_def trace_simps)

lemma length_fetch_times_retries:
  "length (fetch_times (retries w p n s)) = length (fetch_times s) + n"
proof (induction n)
  case 0
  show ?case by simp
next
  case (Suc n)
  then show ?case by (simp add: fetch_times_retries_Suc del: retries.simps)
qed

lemma now_retries_Suc: "now (retries w p n s) + 1500 \<le> now (retries w p (Suc n) s)"
  by (simp add: trace_simps)

lemma gaps_retries:
  "fetch_times s = [] \<Longrightarrow>
   sorted_wrt (\<lambda>a b. a + 1500 \<le> b) (fetch_times (retries w p n s)) \<and>
   (\<forall>t \<in> set (fetch_times (retries w p n s)). t + 1500 \<le> now (retries w p n s))"
proof (induction n)
  case 0
  then show ?case by simp
next
  case (Suc n)
  from Suc have srt: "sorted_wrt (\<lambda>a b. a + 1500 \<le> b) (fetch_times (retries w p n s))"
    and bnd: "\<forall>t \<in> set (fetch_times (retries w p n s)). t + 1500 \<le> now (retries w p n s)"
    by simp_all
  have step: "now (retries w p n s) + 1500 \<le> now (retries w p (Suc n) s)"
    by (rule now_retries_Suc)
  have "sorted_wrt (\<lambda>a b. a + 1500 \<le> b) (fetch_times (retries w p (Suc n) s))"
    unfolding fetch_times_retries_Suc using srt bnd by (simp add: sorted_wrt_append)
  moreover have "\<forall>t \<in> set (fetch_times (retries w p (Suc n) s)). t + 1500 \<le> now (retries w p (Suc n) s)"
    unfolding fetch_times_retries_Suc using bnd step by fastforce
  ultimately show ?case by simp
qed

lemma spaced_nth:
  "sorted_wrt (\<lambda>a b. a + 1500 \<le> b) ts \<Longrightarrow> Suc i < length ts \<Longrightarrow> ts ! i + (1500::nat) \<le> ts ! Suc i"
  by (simp add: sorted_wrt_iff_nth_less)

lemma trace_prompt_customer:
  "\<exists>rest. trace (prompt_customer w result s) = trace s @ rest \<and>
          filter is_response (map snd rest) = [] \<and>
          filter (\<lambda>e. is_fetch (snd e)) rest = []"
  by (simp add: prompt_customer_def trace_simps Let_def split: sum.split)

lemma responses_prompt_customer: "responses (prompt_customer w result s) = responses s"
  using trace_prompt_customer [of w result s] by (auto simp: responses_def)

lemma fetch_times_prompt_customer: "fetch_times (prompt_customer w result s) = fetch_times s"
  using trace_prompt_customer [of w result s] by (auto simp: fetch_times_def)

lemma fetch_times_respond: "fetch_times (respond c b s) = fetch_times s"
  by (simp add: fetch_times_def trace_simps)

lemma responses_respond: "responses (respond c b s) = responses s @ [Respond c b]"
  by (simp add: responses_def trace_simps)

lemma takeWhile_until:
  "filter P xs = [] \<Longrightarrow> P y \<Longrightarrow> takeWhile (\<lambda>e. \<not> P e) (xs @ y # ys) = xs"
  by (induction xs) (simp_all split: if_splits)

lemma fetches_before_response_prompt:
  assumes "responses s = []"
  shows "fetches_before_response (prompt_customer w result (respond c b s)) =
           filter is_fetch (map snd (trace s))"
proof -
  obtain rest where
    t: "trace (prompt_customer w result (respond c b s)) = trace (respond c b s) @ rest"
    using trace_prompt_customer by blast
  from assms have no: "filter is_response (map snd (trace s)) = []"
    by (simp add: responses_def)
  have "map snd (trace (prompt_customer w result (respond c b s))) =
          map snd (trace s) @ (Respond c b # map snd rest)"
    by (simp add: t trace_simps)
  then have "takeWhile (\<lambda>e. \<not> is_response e) (map snd (trace (prompt_customer w result (respond c b s)))) =
          map snd (trace s)"
    using takeWhile_until [OF no, of "Respond c b" "map snd rest"] by simp
  then show ?thesis by (simp add: fetches_before_response_def)
qed

lemma length_filter_fetch: "length (filter is_fetch (map snd (trace s))) = length (fetch_times s)"
  by (simp add: fetch_times_def filter_map o_def)

lemma process_on_reader_polling:
  assumes "truthy (field body ''payment_intent'')"
    and "processPaymentIntent w (READER_ID w)
           (JObj [(''payment_intent'', field body ''payment_intent'')]) = Inr r"
  shows "process_on_reader w body t0 =
     (case poll w (field body ''payment_intent'') 0 (instructed w body t0) of
        None \<Rightarrow> None
      | Some (Inl err, s2) \<Rightarrow> Some (catch_err ''Error processing payment on reader:'' err s2)
      | Some (Inr result, s2) \<Rightarrow>
          Some (prompt_customer w result
                  (respond 200 (JObj [(''success'', JBool True),
                                      (''payment_intent'', JObj result)]) s2)))"
  using assms by (simp add: process_on_reader_def instructed_def Let_def)

lemma fetch_times_instructed: "fetch_times (instructed w body t0) = []"
  by (simp add: instructed_def fetch_times_def trace_simps)

lemma responses_instructed: "responses (instructed w body t0) = []"
  by (simp add: instructed_def responses_def trace_simps)

text \<open>
  The cut loop and the partial function are the same loop: a run that returns within
  \<open>n\<close> rounds is a run of \<^verbatim>\<open>poll\<close> with that result, and every run of \<^verbatim>\<open>poll\<close> that
  returns does so within some number of rounds. The same holds of the two handlers.
\<close>

lemma poll_upto_Returned:
  "poll_upto n w p k s = Returned r \<Longrightarrow> poll w p k s = Some r"
proof (induction n arbitrary: k s)
  case 0
  then show ?case by simp
next
  case (Suc n)
  show ?case
  proof (cases "retrieve w k p")
    case (Inl err)
    with Suc.prems show ?thesis
      by (subst poll.simps) simp
  next
    case (Inr pint)
    show ?thesis
    proof (cases "field pint ''status'' = JStr ''succeeded''")
      case True
      with Inr Suc.prems show ?thesis
        by (subst poll.simps) simp
    next
      case False
      with Inr Suc.prems
      have "poll_upto n w p (Suc k) (sleep w 1500 (await_call w (Call_retrieve p) s)) = Returned r"
        by simp
      then have "poll w p (Suc k) (sleep w 1500 (await_call w (Call_retrieve p) s)) = Some r"
        by (rule Suc.IH)
      with Inr False show ?thesis
        by (simp add: poll_retry)
    qed
  qed
qed

lemma poll_Some_upto:
  assumes h: "poll w p k s = Some r"
  shows "\<exists>n. poll_upto n w p k s = Returned r"
proof (rule poll.raw_induct [where P = "\<lambda>w p k s r. \<exists>n. poll_upto n w p k s = Returned r", OF _ h])
  fix poll' w p k s r
  assume IH: "\<And>w p k s r. poll' w p k s = Some r \<Longrightarrow> \<exists>n. poll_upto n w p k s = Returned r"
    and body: "(let s1 = await_call w (Call_retrieve p) s
                in case retrieve w k p of
                     Inl err \<Rightarrow> Some (Inl err, s1)
                   | Inr pint \<Rightarrow>
                       if field pint ''status'' = JStr ''succeeded'' then Some (Inr pint, s1)
                       else poll' w p (Suc k) (sleep w 1500 s1)) = Some r"
  show "\<exists>n. poll_upto n w p k s = Returned r"
  proof (cases "retrieve w k p")
    case (Inl err)
    with body have "poll_upto (Suc 0) w p k s = Returned r" by auto
    then show ?thesis ..
  next
    case (Inr pint)
    show ?thesis
    proof (cases "field pint ''status'' = JStr ''succeeded''")
      case True
      with Inr body have "poll_upto (Suc 0) w p k s = Returned r" by auto
      then show ?thesis ..
    next
      case False
      with Inr body
      have "poll' w p (Suc k) (sleep w 1500 (await_call w (Call_retrieve p) s)) = Some r"
        by simp
      from IH [OF this] obtain n where
        "poll_upto n w p (Suc k) (sleep w 1500 (await_call w (Call_retrieve p) s)) = Returned r" ..
      with Inr False have "poll_upto (Suc n) w p k s = Returned r" by simp
      then show ?thesis ..
    qed
  qed
qed

lemma process_on_reader_agrees:
  "process_on_reader w body t0 = Some s \<longleftrightarrow> (\<exists>n. process_on_reader_upto n w body t0 = Returned s)"
proof (cases "truthy (field body ''payment_intent'')")
  case False
  then show ?thesis
    by (simp add: process_on_reader_def process_on_reader_upto_def)
next
  case True
  let ?p = "field body ''payment_intent''"
  let ?arg = "JObj [(''payment_intent'', ?p)]"
  let ?s1 = "await_call w (Call_processPaymentIntent (READER_ID w) ?arg) (start t0)"
  show ?thesis
  proof (cases "processPaymentIntent w (READER_ID w) ?arg")
    case (Inl err)
    with True show ?thesis
      by (simp add: process_on_reader_def process_on_reader_upto_def Let_def)
  next
    case (Inr r)
    show ?thesis
    proof
      assume run: "process_on_reader w body t0 = Some s"
      with True Inr obtain res s2 where p: "poll w ?p 0 ?s1 = Some (res, s2)"
        by (auto simp: process_on_reader_def Let_def split: option.splits)
      from poll_Some_upto [OF p] obtain n where "poll_upto n w ?p 0 ?s1 = Returned (res, s2)" ..
      with run p True Inr have "process_on_reader_upto n w body t0 = Returned s"
        by (auto simp: process_on_reader_def process_on_reader_upto_def Let_def split: sum.splits)
      then show "\<exists>n. process_on_reader_upto n w body t0 = Returned s" ..
    next
      assume "\<exists>n. process_on_reader_upto n w body t0 = Returned s"
      then obtain n where run: "process_on_reader_upto n w body t0 = Returned s" ..
      with True Inr obtain res s2 where p: "poll_upto n w ?p 0 ?s1 = Returned (res, s2)"
        by (auto simp: process_on_reader_upto_def Let_def split: observed.splits)
      from poll_upto_Returned [OF p] have "poll w ?p 0 ?s1 = Some (res, s2)" .
      with run p True Inr show "process_on_reader w body t0 = Some s"
        by (auto simp: process_on_reader_def process_on_reader_upto_def Let_def split: sum.splits)
    qed
  qed
qed

lemma retries_shift:
  "retries w p n (sleep w 1500 (await_call w (Call_retrieve p) s)) = retries w p (Suc n) s"
  by (induction n) simp_all

lemma poll_upto_retries:
  "\<forall>j<n. \<exists>pint. retrieve w (k + j) p = Inr pint \<and> field pint ''status'' \<noteq> JStr ''succeeded'' \<Longrightarrow>
   poll_upto n w p k s = Running (retries w p n s)"
proof (induction n arbitrary: k s)
  case 0
  show ?case by simp
next
  case (Suc n)
  from Suc.prems [rule_format, of 0] obtain pint where
    r: "retrieve w k p = Inr pint" "field pint ''status'' \<noteq> JStr ''succeeded''"
    by auto
  have "\<forall>j<n. \<exists>pint. retrieve w (Suc k + j) p = Inr pint \<and> field pint ''status'' \<noteq> JStr ''succeeded''"
  proof (intro allI impI)
    fix j assume "j < n"
    then have "Suc j < Suc n" by simp
    from Suc.prems [rule_format, OF this] show
      "\<exists>pint. retrieve w (Suc k + j) p = Inr pint \<and> field pint ''status'' \<noteq> JStr ''succeeded''"
      by simp
  qed
  then have "poll_upto n w p (Suc k) (sleep w 1500 (await_call w (Call_retrieve p) s)) =
             Running (retries w p n (sleep w 1500 (await_call w (Call_retrieve p) s)))"
    by (rule Suc.IH)
  with r show ?case
    by (simp add: retries_shift del: retries.simps)
qed

lemma concat_replicate_snoc: "concat (replicate n xs) @ xs = xs @ concat (replicate n xs)"
  by (induction n) simp_all

lemma events_retries:
  "map snd (trace (retries w p n s)) =
     map snd (trace s) @ concat (replicate n [Call_retrieve p, SetTimeout 1500])"
proof (induction n)
  case 0
  show ?case by simp
next
  case (Suc n)
  have "map snd (trace (retries w p (Suc n) s)) =
          map snd (trace (retries w p n s)) @ [Call_retrieve p, SetTimeout 1500]"
    by (simp add: trace_simps)
  also have "\<dots> = map snd (trace s) @
                 (concat (replicate n [Call_retrieve p, SetTimeout 1500]) @ [Call_retrieve p, SetTimeout 1500])"
    by (simp add: Suc.IH)
  also have "\<dots> = map snd (trace s) @ concat (replicate (Suc n) [Call_retrieve p, SetTimeout 1500])"
    by (simp only: concat_replicate_snoc replicate_Suc concat.simps)
  finally show ?case .
qed

section \<open>The polling loop\<close>

text \<open>
  C1. Once the reader has been instructed, the loop tests the fetched status for
  \<^verbatim>\<open>'succeeded'\<close> only. If every fetch returns a payment intent whose status is
  something else (failure and cancellation statuses included), the handler never
  returns, and for every \<open>n\<close> the handler observed for \<open>n\<close> fetches is still in the
  loop: what it has done is the instruction to the reader followed by \<open>n\<close> times a
  fetch and the 1500 ms timer, and nothing else; no response has been sent; and
  consecutive fetches start at least 1500 ms apart. Nothing bounds \<open>n\<close>.
\<close>

theorem poll_without_succeeded_never_responds:
  assumes "truthy (field body ''payment_intent'')"
    and "processPaymentIntent w (READER_ID w)
           (JObj [(''payment_intent'', field body ''payment_intent'')]) = Inr r"
    and "\<forall>k. \<exists>pint. retrieve w k (field body ''payment_intent'') = Inr pint \<and>
                     field pint ''status'' \<noteq> JStr ''succeeded''"
  shows "process_on_reader w body t0 = None \<and>
         (\<forall>n. \<exists>s. process_on_reader_upto n w body t0 = Running s \<and>
                  map snd (trace s) =
                    Call_processPaymentIntent (READER_ID w)
                      (JObj [(''payment_intent'', field body ''payment_intent'')]) #
                    concat (replicate n [Call_retrieve (field body ''payment_intent''),
                                         SetTimeout 1500]) \<and>
                  responses s = [] \<and>
                  length (fetch_times s) = n \<and>
                  (\<forall>i. Suc i < n \<longrightarrow> fetch_times s ! i + 1500 \<le> fetch_times s ! Suc i))"
proof -
  let ?p = "field body ''payment_intent''"
  let ?s1 = "instructed w body t0"
  have running: "process_on_reader_upto n w body t0 = Running (retries w ?p n ?s1)" for n
  proof -
    have "\<forall>j<n. \<exists>pint. retrieve w (0 + j) ?p = Inr pint \<and> field pint ''status'' \<noteq> JStr ''succeeded''"
      using assms(3) by simp
    then have "poll_upto n w ?p 0 ?s1 = Running (retries w ?p n ?s1)"
      by (rule poll_upto_retries)
    then show ?thesis
      using assms(1,2) by (simp add: process_on_reader_upto_def instructed_def Let_def)
  qed
  have never: "process_on_reader w body t0 = None"
  proof (cases "process_on_reader w body t0")
    case None
    then show ?thesis .
  next
    case (Some s)
    then obtain n where "process_on_reader_upto n w body t0 = Returned s"
      using process_on_reader_agrees by blast
    with running [of n] show ?thesis by simp
  qed
  have ev: "map snd (trace (retries w ?p n ?s1)) =
              Call_processPaymentIntent (READER_ID w) (JObj [(''payment_intent'', ?p)]) #
              concat (replicate n [Call_retrieve ?p, SetTimeout 1500])" for n
    by (simp add: events_retries instructed_def trace_simps)
  have resp: "responses (retries w ?p n ?s1) = []" for n
    by (simp add: responses_retries responses_instructed)
  have len: "length (fetch_times (retries w ?p n ?s1)) = n" for n
    by (simp add: length_fetch_times_retries fetch_times_instructed)
  have gaps: "\<forall>i. Suc i < n \<longrightarrow>
                fetch_times (retries w ?p n ?s1) ! i + 1500 \<le> fetch_times (retries w ?p n ?s1) ! Suc i" for n
  proof -
    have f0: "fetch_times ?s1 = []"
      by (rule fetch_times_instructed)
    from gaps_retries [OF f0]
    have srt: "sorted_wrt (\<lambda>a b. a + 1500 \<le> b) (fetch_times (retries w ?p n ?s1))"
      by blast
    show ?thesis
    proof (intro allI impI)
      fix i
      assume "Suc i < n"
      then have "Suc i < length (fetch_times (retries w ?p n ?s1))"
        by (simp add: len)
      with srt show "fetch_times (retries w ?p n ?s1) ! i + 1500 \<le>
                     fetch_times (retries w ?p n ?s1) ! Suc i"
        by (rule spaced_nth)
    qed
  qed
  from never running ev resp len gaps show ?thesis by blast
qed


theorem poll_without_succeeded_never_responds_witness:
  "truthy (field example_request ''payment_intent'') \<and>
   process_on_reader canceled_world example_request 0 = None \<and>
   (\<exists>s. process_on_reader_upto 2 canceled_world example_request 0 = Running s \<and>
        map snd (trace s) =
          [Call_processPaymentIntent (JStr ''tmr_1'') (JObj [(''payment_intent'', JStr ''pi_1'')]),
           Call_retrieve (JStr ''pi_1''), SetTimeout 1500,
           Call_retrieve (JStr ''pi_1''), SetTimeout 1500] \<and>
        responses s = [] \<and>
        length (fetch_times s) = 2 \<and>
        fetch_times s ! 0 + 1500 \<le> fetch_times s ! 1)"
proof -
  have h1: "truthy (field example_request ''payment_intent'')"
    by (simp add: example_request_def field_def)
  have h2: "processPaymentIntent canceled_world (READER_ID canceled_world)
              (JObj [(''payment_intent'', field example_request ''payment_intent'')]) =
            Inr [(''id'', JStr ''tmr_1'')]"
    by (simp add: canceled_world_def example_world_def)
  have h3: "\<forall>k. \<exists>pint.
              retrieve canceled_world k (field example_request ''payment_intent'') = Inr pint \<and>
              field pint ''status'' \<noteq> JStr ''succeeded''"
    by (simp add: canceled_world_def example_world_def field_def)
  note main = poll_without_succeeded_never_responds [OF h1 h2 h3, of 0]
  from main have never: "process_on_reader canceled_world example_request 0 = None"
    by (rule conjunct1)
  from main [THEN conjunct2, rule_format, of 2] obtain s where
    run: "process_on_reader_upto 2 canceled_world example_request 0 = Running s"
    and ev: "map snd (trace s) =
               Call_processPaymentIntent (READER_ID canceled_world)
                 (JObj [(''payment_intent'', field example_request ''payment_intent'')]) #
               concat (replicate 2 [Call_retrieve (field example_request ''payment_intent''),
                                    SetTimeout 1500])"
    and resp: "responses s = []"
    and len: "length (fetch_times s) = 2"
    and gaps: "\<forall>i. Suc i < 2 \<longrightarrow> fetch_times s ! i + 1500 \<le> fetch_times s ! Suc i"
    by (elim exE conjE) (rule that)
  from ev have ev': "map snd (trace s) =
          [Call_processPaymentIntent (JStr ''tmr_1'') (JObj [(''payment_intent'', JStr ''pi_1'')]),
           Call_retrieve (JStr ''pi_1''), SetTimeout 1500,
           Call_retrieve (JStr ''pi_1''), SetTimeout 1500]"
    by (simp add: canceled_world_def example_world_def example_request_def field_def
        numeral_2_eq_2)
  from gaps have g0: "fetch_times s ! 0 + 1500 \<le> fetch_times s ! 1"
    by simp
  from run ev' resp len g0
  have "\<exists>s. process_on_reader_upto 2 canceled_world example_request 0 = Running s \<and>
        map snd (trace s) =
          [Call_processPaymentIntent (JStr ''tmr_1'') (JObj [(''payment_intent'', JStr ''pi_1'')]),
           Call_retrieve (JStr ''pi_1''), SetTimeout 1500,
           Call_retrieve (JStr ''pi_1''), SetTimeout 1500] \<and>
        responses s = [] \<and>
        length (fetch_times s) = 2 \<and>
        fetch_times s ! 0 + 1500 \<le> fetch_times s ! 1"
    by (intro exI [of _ s] conjI)
  with h1 never show ?thesis by (intro conjI)
qed

text \<open>
  C2. For every \<open>N \<ge> 1\<close>: if the processor reports \<^verbatim>\<open>processing\<close> on fetches 1 to
  \<open>N - 1\<close> and \<^verbatim>\<open>succeeded\<close> on fetch \<open>N\<close>, the handler returns, it has made exactly
  \<open>N\<close> fetches, all of them before its response, consecutive fetches start at least
  1500 ms apart, and the one response it sends is the success response with the intent
  of the last fetch.
\<close>

theorem poll_succeeds_on_Nth_fetch:
  assumes "1 \<le> N"
    and "truthy (field body ''payment_intent'')"
    and "processPaymentIntent w (READER_ID w)
           (JObj [(''payment_intent'', field body ''payment_intent'')]) = Inr r"
    and "\<forall>k<N - 1. \<exists>pint. retrieve w k (field body ''payment_intent'') = Inr pint \<and>
                          field pint ''status'' = JStr ''processing''"
    and "retrieve w (N - 1) (field body ''payment_intent'') = Inr result"
    and "field result ''status'' = JStr ''succeeded''"
  shows "\<exists>s. process_on_reader w body t0 = Some s \<and>
             length (fetch_times s) = N \<and>
             (\<forall>i. Suc i < N \<longrightarrow> fetch_times s ! i + 1500 \<le> fetch_times s ! Suc i) \<and>
             length (fetches_before_response s) = N \<and>
             responses s = [Respond 200 (JObj [(''success'', JBool True),
                                               (''payment_intent'', JObj result)])]"
proof -
  from assms(1) obtain M where N: "N = Suc M"
    by (cases N) auto
  let ?p = "field body ''payment_intent''"
  let ?s1 = "instructed w body t0"
  let ?sn = "retries w ?p M ?s1"
  let ?s2 = "await_call w (Call_retrieve ?p) ?sn"
  let ?s = "prompt_customer w result
              (respond 200 (JObj [(''success'', JBool True), (''payment_intent'', JObj result)]) ?s2)"
  have retry: "\<forall>j<M. \<exists>pint. retrieve w (0 + j) ?p = Inr pint \<and>
                          field pint ''status'' \<noteq> JStr ''succeeded''"
    using assms(4) N by auto
  have last: "retrieve w (0 + M) ?p = Inr result"
    using assms(5) N by simp
  have "poll w ?p 0 ?s1 = poll w ?p (0 + M) ?sn"
    by (rule poll_retries [OF retry])
  also have "\<dots> = Some (Inr result, ?s2)"
    by (rule poll_succeeded [OF last assms(6)])
  finally have run: "process_on_reader w body t0 = Some ?s"
    using assms(2,3) by (simp add: process_on_reader_polling)
  have ft: "fetch_times ?s = fetch_times ?sn @ [now ?sn]"
    by (simp add: fetch_times_prompt_customer fetch_times_respond fetch_times_retrieve)
  have len: "length (fetch_times ?s) = N"
    by (simp add: ft N length_fetch_times_retries fetch_times_instructed)
  have f0: "fetch_times ?s1 = []"
    by (rule fetch_times_instructed)
  have sp: "sorted_wrt (\<lambda>a b. a + 1500 \<le> b) (fetch_times ?sn)"
    and bnd: "\<forall>t \<in> set (fetch_times ?sn). t + 1500 \<le> now ?sn"
    using gaps_retries [OF f0] by blast+
  have "sorted_wrt (\<lambda>a b. a + 1500 \<le> b) (fetch_times ?s)"
    using sp bnd by (simp add: ft sorted_wrt_append)
  then have gaps: "\<forall>i. Suc i < N \<longrightarrow> fetch_times ?s ! i + 1500 \<le> fetch_times ?s ! Suc i"
    using spaced_nth len by blast
  have r2: "responses ?s2 = []"
    by (simp add: responses_def trace_simps
        responses_retries [unfolded responses_def] responses_instructed [unfolded responses_def])
  have before: "length (fetches_before_response ?s) = N"
  proof -
    have "fetches_before_response ?s = filter is_fetch (map snd (trace ?s2))"
      by (rule fetches_before_response_prompt [OF r2])
    then have "length (fetches_before_response ?s) = length (fetch_times ?s2)"
      by (simp only: length_filter_fetch)
    also have "fetch_times ?s2 = fetch_times ?s"
      by (simp add: fetch_times_prompt_customer fetch_times_respond)
    finally show ?thesis
      using len by simp
  qed
  have resp: "responses ?s = [Respond 200 (JObj [(''success'', JBool True),
                                                (''payment_intent'', JObj result)])]"
    by (simp add: responses_prompt_customer responses_respond r2)
  from run len gaps before resp show ?thesis by blast
qed

theorem poll_succeeds_on_Nth_fetch_witness:
  "\<exists>s. process_on_reader example_world example_request 0 = Some s \<and>
       length (fetch_times s) = 3 \<and>
       fetch_times s ! 0 + 1500 \<le> fetch_times s ! 1 \<and>
       fetch_times s ! 1 + 1500 \<le> fetch_times s ! 2 \<and>
       length (fetches_before_response s) = 3 \<and>
       responses s =
         [Respond 200 (JObj [(''success'', JBool True),
            (''payment_intent'', JObj [(''id'', JStr ''pi_1''), (''status'', JStr ''succeeded'')])])]"
proof -
  have h1: "(1::nat) \<le> 3" by simp
  have h2: "truthy (field example_request ''payment_intent'')"
    by (simp add: example_request_def field_def)
  have h3: "processPaymentIntent example_world (READER_ID example_world)
              (JObj [(''payment_intent'', field example_request ''payment_intent'')]) =
            Inr [(''id'', JStr ''tmr_1'')]"
    by (simp add: example_world_def)
  have h4: "\<forall>k<3 - 1. \<exists>pint.
              retrieve example_world k (field example_request ''payment_intent'') = Inr pint \<and>
              field pint ''status'' = JStr ''processing''"
    by (simp add: example_world_def field_def)
  have h5: "retrieve example_world (3 - 1) (field example_request ''payment_intent'') =
              Inr [(''id'', JStr ''pi_1''), (''status'', JStr ''succeeded'')]"
    by (simp add: example_world_def example_request_def field_def)
  have h6: "field [(''id'', JStr ''pi_1''), (''status'', JStr ''succeeded'')] ''status'' =
              JStr ''succeeded''"
    by (simp add: field_def)
  from poll_succeeds_on_Nth_fetch [OF h1 h2 h3 h4 h5 h6, of 0] obtain s where
    run: "process_on_reader example_world example_request 0 = Some s"
    and len: "length (fetch_times s) = 3"
    and gaps: "\<forall>i. Suc i < 3 \<longrightarrow> fetch_times s ! i + 1500 \<le> fetch_times s ! Suc i"
    and rest: "length (fetches_before_response s) = 3"
      "responses s =
         [Respond 200 (JObj [(''success'', JBool True),
            (''payment_intent'', JObj [(''id'', JStr ''pi_1''), (''status'', JStr ''succeeded'')])])]"
    by blast
  have g0: "fetch_times s ! 0 + 1500 \<le> fetch_times s ! 1"
    using gaps [rule_format, of 0] by simp
  have g1: "fetch_times s ! 1 + 1500 \<le> fetch_times s ! 2"
    using gaps [rule_format, of 1] by (simp add: numeral_2_eq_2)
  from run len g0 g1 rest show ?thesis by blast
qed

section \<open>Errors and the prompt on the reader\<close>

text \<open>
  C6. If the call that instructs the reader is rejected, the handler makes no fetch: it
  logs the error and answers 500 with the processor's message, unchanged, as the
  \<^verbatim>\<open>error\<close> field. Nothing else happens.
\<close>

theorem instruct_reader_error_aborts:
  assumes "truthy (field body ''payment_intent'')"
    and "processPaymentIntent w (READER_ID w)
           (JObj [(''payment_intent'', field body ''payment_intent'')]) = Inl err"
  shows "\<exists>s. process_on_reader w body t0 = Some s \<and>
           trace s =
             [(t0, Call_processPaymentIntent (READER_ID w)
                     (JObj [(''payment_intent'', field body ''payment_intent'')])),
              (t0 + latency w 0,
                 ConsoleError ''Error processing payment on reader:'' [JStr (message err)]),
              (t0 + latency w 0, Respond 500 (JObj [(''error'', JStr (message err))]))] \<and>
           fetch_times s = [] \<and>
           responses s = [Respond 500 (JObj [(''error'', JStr (message err))])]"
  using assms
  by (simp add: process_on_reader_def Let_def trace_simps fetch_times_def responses_def)

theorem instruct_reader_error_aborts_witness:
  "\<exists>s. process_on_reader failing_world example_request 0 = Some s \<and>
       fetch_times s = [] \<and>
       responses s = [Respond 500 (JObj [(''error'', JStr ''Reader is offline'')])]"
proof -
  have h1: "truthy (field example_request ''payment_intent'')"
    by (simp add: example_request_def field_def)
  have h2: "processPaymentIntent failing_world (READER_ID failing_world)
              (JObj [(''payment_intent'', field example_request ''payment_intent'')]) =
            Inl (StripeError ''Reader is offline'')"
    by (simp add: failing_world_def example_world_def)
  from instruct_reader_error_aborts [OF h1 h2, of 0] show ?thesis by auto
qed

text \<open>
  C7. Whenever polling returns an intent, its status is \<^verbatim>\<open>'succeeded'\<close>, and the
  handler goes on as follows: it sends the success response, sets the 1000 ms timer,
  calls \<^verbatim>\<open>collectInputs\<close> on the reader no earlier than 1000 ms later, and logs either
  the collected input or, if that call is rejected, its error message. In both cases
  the handler returns and the only response in its trace is the success response
  already sent.
\<close>

theorem collect_inputs_after_response:
  assumes "truthy (field body ''payment_intent'')"
    and "processPaymentIntent w (READER_ID w)
           (JObj [(''payment_intent'', field body ''payment_intent'')]) = Inr r"
    and "poll w (field body ''payment_intent'') 0 (instructed w body t0) = Some (Inr result, s2)"
  shows "\<exists>s t. process_on_reader w body t0 = Some s \<and>
           field result ''status'' = JStr ''succeeded'' \<and>
           trace s = trace s2 @
             [(now s2, Respond 200 (JObj [(''success'', JBool True),
                                          (''payment_intent'', JObj result)])),
              (now s2, SetTimeout 1000),
              (now s2 + 1000 + lateness w (Suc (length (trace s2))),
                 Call_collectInputs (READER_ID w) collect_params),
              (t, case collectInputs w (READER_ID w) collect_params of
                    Inl collectErr \<Rightarrow>
                      ConsoleError ''Error collecting on-reader inputs:''
                        [JStr (message collectErr)]
                  | Inr inputResult \<Rightarrow>
                      ConsoleLog ''Customer input collected on reader:'' [JObj inputResult])] \<and>
           responses s = [Respond 200 (JObj [(''success'', JBool True),
                                             (''payment_intent'', JObj result)])]"
proof -
  let ?ok = "Respond 200 (JObj [(''success'', JBool True), (''payment_intent'', JObj result)])"
  let ?s = "prompt_customer w result
              (respond 200 (JObj [(''success'', JBool True), (''payment_intent'', JObj result)]) s2)"
  from poll_Some_succeeded [OF assms(3)]
  have st: "field result ''status'' = JStr ''succeeded''" and r2: "responses s2 = []"
    by (simp_all add: responses_instructed)
  have run: "process_on_reader w body t0 = Some ?s"
    using assms by (simp add: process_on_reader_polling)
  have resp: "responses ?s = [?ok]"
    by (simp add: responses_prompt_customer responses_respond r2)
  have tr: "\<exists>t. trace ?s = trace s2 @
             [(now s2, ?ok),
              (now s2, SetTimeout 1000),
              (now s2 + 1000 + lateness w (Suc (length (trace s2))),
                 Call_collectInputs (READER_ID w) collect_params),
              (t, case collectInputs w (READER_ID w) collect_params of
                    Inl collectErr \<Rightarrow>
                      ConsoleError ''Error collecting on-reader inputs:''
                        [JStr (message collectErr)]
                  | Inr inputResult \<Rightarrow>
                      ConsoleLog ''Customer input collected on reader:'' [JObj inputResult])]"
    using st by (simp add: prompt_customer_def Let_def trace_simps split: sum.split)
  from run st resp tr show ?thesis by blast
qed

theorem collect_inputs_after_response_witness:
  "\<exists>s. process_on_reader prompt_world example_request 0 = Some s \<and>
       map snd (trace s) =
         [Call_processPaymentIntent (JStr ''tmr_1'') (JObj [(''payment_intent'', JStr ''pi_1'')]),
          Call_retrieve (JStr ''pi_1''),
          Respond 200 (JObj [(''success'', JBool True),
            (''payment_intent'', JObj [(''id'', JStr ''pi_1''), (''status'', JStr ''succeeded'')])]),
          SetTimeout 1000,
          Call_collectInputs (JStr ''tmr_1'') collect_params,
          ConsoleError ''Error collecting on-reader inputs:'' [JStr ''Reader is busy'']] \<and>
       responses s =
         [Respond 200 (JObj [(''success'', JBool True),
            (''payment_intent'', JObj [(''id'', JStr ''pi_1''), (''status'', JStr ''succeeded'')])])]"
proof -
  let ?s1 = "instructed prompt_world example_request 0"
  have h1: "truthy (field example_request ''payment_intent'')"
    by (simp add: example_request_def field_def)
  have h2: "processPaymentIntent prompt_world (READER_ID prompt_world)
              (JObj [(''payment_intent'', field example_request ''payment_intent'')]) =
            Inr [(''id'', JStr ''tmr_1'')]"
    by (simp add: prompt_world_def example_world_def)
  have h3: "poll prompt_world (field example_request ''payment_intent'') 0 ?s1 =
              Some (Inr [(''id'', JStr ''pi_1''), (''status'', JStr ''succeeded'')],
                    await_call prompt_world
                      (Call_retrieve (field example_request ''payment_intent'')) ?s1)"
    by (subst poll.simps)
      (simp add: prompt_world_def example_world_def example_request_def field_def)
  from collect_inputs_after_response [OF h1 h2 h3] show ?thesis
    by (auto simp: trace_simps instructed_def prompt_world_def example_world_def
        example_request_def field_def)
qed

section \<open>Requests without their required field\<close>

text \<open>
  When \<^verbatim>\<open>req.body\<close> is an object without \<^verbatim>\<open>amount\<close>, the two handlers that create a
  payment intent answer 400 with the error \<^verbatim>\<open>Missing amount\<close>; when it is an object
  without \<^verbatim>\<open>payment_intent\<close>, the handler that processes on the reader answers 400
  with the error \<^verbatim>\<open>Missing payment_intent\<close>. The response is the whole trace: the
  processor is not called.
\<close>

lemma missing_field_400:
  "(map_of body ''amount'' = None \<longrightarrow>
      trace (create_payment_intent_server w body t0) =
        [(t0, Respond 400 (JObj [(''error'', JStr ''Missing amount'')]))] \<and>
      calls (create_payment_intent_server w body t0) = [] \<and>
      trace (create_payment_intent_part_000 w body t0) =
        [(t0, Respond 400 (JObj [(''error'', JStr ''Missing amount'')]))] \<and>
      calls (create_payment_intent_part_000 w body t0) = []) \<and>
   (map_of body ''payment_intent'' = None \<longrightarrow>
      (\<exists>s. process_on_reader w body t0 = Some s \<and>
           trace s = [(t0, Respond 400 (JObj [(''error'', JStr ''Missing payment_intent'')]))] \<and>
           calls s = []))"
  by (simp add: calls_def create_server_400 create_part_000_400 process_400 field_missing)

lemma destructure_object: "destructure first (JObj body) = Inr body"
  by simp

lemma object_body_missing_field_400:
  "(map_of body ''amount'' = None \<longrightarrow>
      trace (post_create_payment_intent_server w (JObj body) t0) =
        [(t0, Respond 400 (JObj [(''error'', JStr ''Missing amount'')]))] \<and>
      trace (post_create_payment_intent_part_000 w (JObj body) t0) =
        [(t0, Respond 400 (JObj [(''error'', JStr ''Missing amount'')]))]) \<and>
   (map_of body ''payment_intent'' = None \<longrightarrow>
      post_process_on_reader w (JObj body) t0 =
        Some \<lparr>now = t0,
              trace = [(t0, Respond 400 (JObj [(''error'', JStr ''Missing payment_intent'')]))]\<rparr>)"
  by (simp add: post_create_payment_intent_server_def post_create_payment_intent_part_000_def
      post_process_on_reader_def create_server_400 create_part_000_400 process_400 field_missing)

text \<open>
  C5. A request that omits its required field is to be answered 400, with no call to the
  processor. A request with no parsed body omits the field as well, and there the
  handlers miss: \<^verbatim>\<open>req.body\<close> is \<^verbatim>\<open>undefined\<close>, the destructuring throws inside the
  \<^verbatim>\<open>try\<close>, and the \<^verbatim>\<open>catch\<close> logs the \<^verbatim>\<open>TypeError\<close> and answers 500 with its
  message. The processor is not called. The same handler answers 400 when the body is
  the empty object.
\<close>

theorem no_body_is_answered_500:
  "trace (post_create_payment_intent_server example_world JUndefined 0) =
     [(0, ConsoleError ''Stripe error creating payment intent:''
            [JStr (cannot_destructure ''amount'' ''undefined'')]),
      (0, Respond 500 (JObj [(''error'', JStr (cannot_destructure ''amount'' ''undefined''))]))] \<and>
   trace (post_create_payment_intent_part_000 example_world JUndefined 0) =
     [(0, ConsoleError ''Stripe error creating payment intent:''
            [JStr (cannot_destructure ''amount'' ''undefined'')]),
      (0, Respond 500 (JObj [(''error'', JStr (cannot_destructure ''amount'' ''undefined''))]))] \<and>
   post_process_on_reader example_world JUndefined 0 =
     Some \<lparr>now = 0,
           trace =
             [(0, ConsoleError ''Error processing payment on reader:''
                    [JStr (cannot_destructure ''payment_intent'' ''undefined'')]),
              (0, Respond 500
                    (JObj [(''error'',
                            JStr (cannot_destructure ''payment_intent'' ''undefined''))]))]\<rparr> \<and>
   trace (post_create_payment_intent_server example_world (JObj []) 0) =
     [(0, Respond 400 (JObj [(''error'', JStr ''Missing amount'')]))]"
  by (simp add: post_create_payment_intent_server_def post_create_payment_intent_part_000_def
      post_process_on_reader_def catch_err_def respond_def emit_def start_def
      create_payment_intent_server_def field_def)

text \<open>
  C10. The check of \<^verbatim>\<open>amount\<close> is \<^verbatim>\<open>!amount\<close>. An amount that is present but is
  \<^verbatim>\<open>0\<close> or the empty string is answered 400 \<^verbatim>\<open>Missing amount\<close> and nothing is
  called. Every truthy amount passes: the one call made is the creation call, whose
  \<^verbatim>\<open>amount\<close> is the value of the request, unchanged. A negative number, a fraction and
  a string that is not a number are truthy.
\<close>

theorem amount_check_is_truthiness:
  "((field body ''amount'' = JNum 0 \<or> field body ''amount'' = JStr []) \<longrightarrow>
      trace (create_payment_intent_server w body t0) =
        [(t0, Respond 400 (JObj [(''error'', JStr ''Missing amount'')]))] \<and>
      trace (create_payment_intent_part_000 w body t0) =
        [(t0, Respond 400 (JObj [(''error'', JStr ''Missing amount'')]))]) \<and>
   (truthy (field body ''amount'') \<longrightarrow>
      calls (create_payment_intent_server w body t0) =
        [Call_create (create_params_server body)] \<and>
      field (own_props (create_params_server body)) ''amount'' = field body ''amount'' \<and>
      calls (create_payment_intent_part_000 w body t0) =
        [Call_create (create_params_part_000 body)] \<and>
      field (own_props (create_params_part_000 body)) ''amount'' = field body ''amount'') \<and>
   truthy (JNum (- 5)) \<and> truthy (JNum (1 / 2)) \<and> truthy (JStr ''abc'')"
proof -
  have "\<not> truthy (field body ''amount'')"
    if "field body ''amount'' = JNum 0 \<or> field body ''amount'' = JStr []"
    using that by auto
  then show ?thesis
    by (simp add: create_server_400 create_part_000_400 calls_create_server
        calls_create_part_000 amount_server amount_part_000)
qed

theorem amount_check_is_truthiness_witness:
  "trace (create_payment_intent_server example_world [(''amount'', JNum 0)] 0) =
     [(0, Respond 400 (JObj [(''error'', JStr ''Missing amount'')]))] \<and>
   trace (create_payment_intent_part_000 example_world [(''amount'', JStr [])] 0) =
     [(0, Respond 400 (JObj [(''error'', JStr ''Missing amount'')]))] \<and>
   calls (create_payment_intent_server example_world [(''amount'', JNum (- 5))] 0) =
     [Call_create (create_params_server [(''amount'', JNum (- 5))])] \<and>
   field (own_props (create_params_server [(''amount'', JNum (- 5))])) ''amount'' = JNum (- 5) \<and>
   calls (create_payment_intent_part_000 example_world [(''amount'', JStr ''abc'')] 0) =
     [Call_create (create_params_part_000 [(''amount'', JStr ''abc'')])] \<and>
   field (own_props (create_params_part_000 [(''amount'', JStr ''abc'')])) ''amount'' =
     JStr ''abc''"
  using amount_check_is_truthiness [of "[(''amount'', JNum 0)]" example_world 0]
    amount_check_is_truthiness [of "[(''amount'', JStr [])]" example_world 0]
    amount_check_is_truthiness [of "[(''amount'', JNum (- 5))]" example_world 0]
    amount_check_is_truthiness [of "[(''amount'', JStr ''abc'')]" example_world 0]
  by (simp add: field_def)

section \<open>The created intent and the contact email\<close>

text \<open>
  C8. When the amount passes the check and the creation call returns an intent, the one
  response is 200 with \<^verbatim>\<open>payment_intent\<close> equal to the \<^verbatim>\<open>id\<close> of that intent, in
  both files.
\<close>

theorem created_id_passed_through:
  "truthy (field body ''amount'') \<Longrightarrow>
   (create w (create_params_server body) = Inr paymentIntent \<longrightarrow>
      responses (create_payment_intent_server w body t0) =
        [Respond 200 (JObj [(''payment_intent'', field paymentIntent ''id'')])]) \<and>
   (create w (create_params_part_000 body) = Inr paymentIntent' \<longrightarrow>
      responses (create_payment_intent_part_000 w body t0) =
        [Respond 200 (JObj [(''payment_intent'', field paymentIntent' ''id'')])])"
  by (simp add: responses_create_server responses_create_part_000)

theorem created_id_passed_through_witness:
  "truthy (field sale_request ''amount'') \<and>
   responses (create_payment_intent_server example_world sale_request 0) =
     [Respond 200 (JObj [(''payment_intent'', JStr ''pi_1'')])] \<and>
   responses (create_payment_intent_part_000 example_world sale_request 0) =
     [Respond 200 (JObj [(''payment_intent'', JStr ''pi_1'')])]"
proof -
  have h: "truthy (field sale_request ''amount'')"
    by (simp add: sale_request_def field_def)
  have c1: "create example_world (create_params_server sale_request) =
              Inr [(''id'', JStr ''pi_1''), (''status'', JStr ''requires_payment_method'')]"
    and c2: "create example_world (create_params_part_000 sale_request) =
              Inr [(''id'', JStr ''pi_1''), (''status'', JStr ''requires_payment_method'')]"
    by (simp_all add: example_world_def)
  from created_id_passed_through [OF h, of example_world _ 0] c1 c2 h show ?thesis
    by (simp add: field_def)
qed

text \<open>
  C3, as amended. Take a request whose amount passes the check and whose \<^verbatim>\<open>email\<close> or
  \<^verbatim>\<open>receipt_email\<close> is truthy; its normalised address is \<^verbatim>\<open>email\<close> if that is
  truthy and \<^verbatim>\<open>receipt_email\<close> otherwise. In \<^verbatim>\<open>src/unnamed/part_000\<close> the creation
  call carries that address twice: as \<^verbatim>\<open>customer_email\<close> in the metadata and as
  \<^verbatim>\<open>receipt_email\<close>. In \<^verbatim>\<open>src/server.js\<close> the metadata of the request is passed on
  as it is, and \<^verbatim>\<open>receipt_email\<close> is \<^verbatim>\<open>email || undefined\<close>: the \<^verbatim>\<open>receipt_email\<close>
  of the request is not read.
\<close>

theorem contact_email_in_creation_call:
  assumes "truthy (field body ''amount'')"
    and "truthy (field body ''email'') \<or> truthy (field body ''receipt_email'')"
  shows "calls (create_payment_intent_part_000 w body t0) =
           [Call_create (create_params_part_000 body)] \<and>
         field (metadata_of (create_params_part_000 body)) ''customer_email'' =
           (if truthy (field body ''email'') then field body ''email''
            else field body ''receipt_email'') \<and>
         receipt_email_of (create_params_part_000 body) =
           (if truthy (field body ''email'') then field body ''email''
            else field body ''receipt_email'') \<and>
         calls (create_payment_intent_server w body t0) =
           [Call_create (create_params_server body)] \<and>
         field (own_props (create_params_server body)) ''metadata'' =
           dflt (field body ''metadata'') (JObj []) \<and>
         receipt_email_of (create_params_server body) = js_or (field body ''email'') JUndefined"
proof -
  let ?normalized = "if truthy (field body ''email'') then field body ''email''
                     else field body ''receipt_email''"
  from assms(2) have ce: "customerEmail body = ?normalized" and t: "truthy (customerEmail body)"
    by (auto simp: customerEmail_cases)
  from t have "js_or (customerEmail body) JUndefined = customerEmail body"
    by (simp add: js_or_def)
  with ce t show ?thesis
    using assms(1)
    by (simp add: calls_create_server calls_create_part_000 tagged_part_000 receipt_part_000
        metadata_server receipt_server)
qed

theorem contact_email_in_creation_call_witness:
  "truthy (field both_emails_request ''amount'') \<and>
   field (metadata_of (create_params_part_000 both_emails_request)) ''customer_email'' =
     JStr ''a@b.c'' \<and>
   receipt_email_of (create_params_part_000 both_emails_request) = JStr ''a@b.c'' \<and>
   field (own_props (create_params_server both_emails_request)) ''metadata'' =
     JObj [(''order'', JStr ''42''), (''customer_email'', JStr ''old@x.y'')] \<and>
   receipt_email_of (create_params_server both_emails_request) = JStr ''a@b.c''"
proof -
  have h1: "truthy (field both_emails_request ''amount'')"
    by (simp add: both_emails_request_def field_def)
  have h2: "truthy (field both_emails_request ''email'') \<or>
            truthy (field both_emails_request ''receipt_email'')"
    by (simp add: both_emails_request_def field_def)
  from contact_email_in_creation_call [OF h1 h2, of example_world 0] h1 show ?thesis
    by (simp add: both_emails_request_def field_def dflt_def js_or_def)
qed

text \<open>
  Where the unamended statement fails: \<^verbatim>\<open>src/server.js\<close> on a sale with the email
  \<^verbatim>\<open>a@b.c\<close> calls the processor with empty metadata, and on a sale that gives only
  \<^verbatim>\<open>receipt_email\<close> it calls the processor with empty metadata and no receipt address.
\<close>

theorem server_does_not_tag_metadata:
  "calls (create_payment_intent_server example_world
            [(''amount'', JNum 1999), (''email'', JStr ''a@b.c'')] 0) =
     [Call_create (JObj [(''amount'', JNum 1999),
                         (''currency'', JStr ''usd''),
                         (''payment_method_types'', JArr [JStr ''card_present'']),
                         (''capture_method'', JStr ''automatic''),
                         (''metadata'', JObj []),
                         (''description'', JStr ''Authenticus POS Sale''),
                         (''receipt_email'', JStr ''a@b.c'')])] \<and>
   field (metadata_of (create_params_server [(''amount'', JNum 1999), (''email'', JStr ''a@b.c'')]))
     ''customer_email'' \<noteq> JStr ''a@b.c'' \<and>
   calls (create_payment_intent_server example_world
            [(''amount'', JNum 1999), (''receipt_email'', JStr ''r@x.y'')] 0) =
     [Call_create (JObj [(''amount'', JNum 1999),
                         (''currency'', JStr ''usd''),
                         (''payment_method_types'', JArr [JStr ''card_present'']),
                         (''capture_method'', JStr ''automatic''),
                         (''metadata'', JObj []),
                         (''description'', JStr ''Authenticus POS Sale''),
                         (''receipt_email'', JUndefined)])]"
  by (simp add: create_payment_intent_server_def create_params_server_def calls_def trace_simps
      metadata_of_def field_def dflt_def js_or_def Let_def example_world_def)

text \<open>
  C4, as amended. When the amount passes the check and \<^verbatim>\<open>email\<close> is truthy, the
  address of the creation call is the value of \<^verbatim>\<open>email\<close>, whatever \<^verbatim>\<open>receipt_email\<close>
  is: as \<^verbatim>\<open>receipt_email\<close> in both files, and as \<^verbatim>\<open>customer_email\<close> in the metadata
  in \<^verbatim>\<open>src/unnamed/part_000\<close>.
\<close>

theorem email_takes_precedence:
  assumes "truthy (field body ''amount'')"
    and "truthy (field body ''email'')"
  shows "calls (create_payment_intent_part_000 w body t0) =
           [Call_create (create_params_part_000 body)] \<and>
         receipt_email_of (create_params_part_000 body) = field body ''email'' \<and>
         field (metadata_of (create_params_part_000 body)) ''customer_email'' =
           field body ''email'' \<and>
         calls (create_payment_intent_server w body t0) =
           [Call_create (create_params_server body)] \<and>
         receipt_email_of (create_params_server body) = field body ''email''"
proof -
  from assms(2) have ce: "customerEmail body = field body ''email''"
    by (simp add: customerEmail_cases)
  with assms show ?thesis
    by (simp add: calls_create_server calls_create_part_000 tagged_part_000 receipt_part_000
        receipt_server js_or_def)
qed

theorem email_takes_precedence_witness:
  "truthy (field both_emails_request ''amount'') \<and> truthy (field both_emails_request ''email'') \<and>
   field both_emails_request ''receipt_email'' = JStr ''r@x.y'' \<and>
   receipt_email_of (create_params_part_000 both_emails_request) = JStr ''a@b.c'' \<and>
   field (metadata_of (create_params_part_000 both_emails_request)) ''customer_email'' =
     JStr ''a@b.c'' \<and>
   receipt_email_of (create_params_server both_emails_request) = JStr ''a@b.c''"
proof -
  have h1: "truthy (field both_emails_request ''amount'')"
    and h2: "truthy (field both_emails_request ''email'')"
    by (simp_all add: both_emails_request_def field_def)
  from email_takes_precedence [OF h1 h2, of example_world 0] h1 h2 show ?thesis
    by (simp add: both_emails_request_def field_def)
qed

text \<open>
  Where the unamended statement fails: a request that supplies both fields, with
  \<^verbatim>\<open>email\<close> the empty string. \<^verbatim>\<open>src/unnamed/part_000\<close> then uses \<^verbatim>\<open>receipt_email\<close>,
  for the receipt and for the metadata.
\<close>

theorem empty_email_falls_back_to_receipt_email:
  "calls (create_payment_intent_part_000 example_world
            [(''amount'', JNum 1999), (''email'', JStr []), (''receipt_email'', JStr ''r@x.y'')] 0) =
     [Call_create (JObj [(''amount'', JNum 1999),
                         (''currency'', JStr ''usd''),
                         (''payment_method_types'', JArr [JStr ''card_present'']),
                         (''capture_method'', JStr ''automatic''),
                         (''description'', JStr ''Authenticus POS Sale''),
                         (''metadata'', JObj [(''customer_email'', JStr ''r@x.y'')]),
                         (''receipt_email'', JStr ''r@x.y'')])] \<and>
   receipt_email_of (create_params_part_000
       [(''amount'', JNum 1999), (''email'', JStr []), (''receipt_email'', JStr ''r@x.y'')]) \<noteq>
     field [(''amount'', JNum 1999), (''email'', JStr []), (''receipt_email'', JStr ''r@x.y'')]
       ''email''"
  by (simp add: create_payment_intent_part_000_def create_params_part_000_def calls_def
      trace_simps receipt_email_of_def customerEmail_def spread_def field_def dflt_def js_or_def
      Let_def example_world_def)

section \<open>Cancelling\<close>

text \<open>
  C9. The handler of \<^verbatim>\<open>POST /cancel-payment\<close> reads nothing of the request and calls
  \<^verbatim>\<open>cancelAction\<close> on the reader once. If that call returns, the response is 200 with
  \<^verbatim>\<open>success: true\<close> and the message \<^verbatim>\<open>Payment cancelled on reader\<close>; if it is
  rejected, the response is 500 with the error's message.
\<close>

theorem cancel_payment_response:
  "(cancelAction w (READER_ID w) = Inr r \<longrightarrow>
      calls (cancel_payment w t0) = [Call_cancelAction (READER_ID w)] \<and>
      responses (cancel_payment w t0) =
        [Respond 200 (JObj [(''success'', JBool True),
                            (''message'', JStr ''Payment cancelled on reader'')])]) \<and>
   (cancelAction w (READER_ID w) = Inl err \<longrightarrow>
      calls (cancel_payment w t0) = [Call_cancelAction (READER_ID w)] \<and>
      responses (cancel_payment w t0) = [Respond 500 (JObj [(''error'', JStr (message err))])])"
  by (simp add: cancel_payment_def calls_def responses_def trace_simps Let_def)

theorem cancel_payment_response_witness:
  "responses (cancel_payment example_world 0) =
     [Respond 200 (JObj [(''success'', JBool True),
                         (''message'', JStr ''Payment cancelled on reader'')])] \<and>
   responses (cancel_payment failing_world 0) =
     [Respond 500 (JObj [(''error'', JStr ''Reader is offline'')])]"
proof -
  have ok: "cancelAction example_world (READER_ID example_world) = Inr [(''id'', JStr ''tmr_1'')]"
    by (simp add: example_world_def)
  have bad: "cancelAction failing_world (READER_ID failing_world) =
               Inl (StripeError ''Reader is offline'')"
    by (simp add: failing_world_def example_world_def)
  from cancel_payment_response [of example_world _ 0]
    cancel_payment_response [of failing_world _ 0] ok bad
  show ?thesis by simp
qed

end
